theory Spec2Isabelle
  imports Complex_Main "HOL-Library.Sublist"
begin

section \<open>Annotation-based MCP tool filtering (langchain/filtered\_mcp\_tools.py)\<close>

subsection \<open>Python values carried by annotations and filters\<close>

text \<open>
  A Python \<open>float\<close>: a finite value, an infinity or a NaN. A finite float is given by its
  exact numeric value, a rational (every double is one; \<open>-0.0\<close> and \<open>0.0\<close> have the same
  value and compare equal). NaN is the one value that does not equal itself, so where
  Python looks at object identity before \<open>==\<close> it matters whether the same NaN object
  is met: a NaN carries the identity of its object.
\<close>

datatype pyfloat = Finite rat | PosInf | NegInf | NaN nat

text \<open>
  Tool annotations arrive as decoded JSON, and the filter functions are typed \<open>Any\<close>.
  The values covered here are \<open>None\<close>, booleans, unbounded integers, floats, strings,
  lists, and dictionaries with string keys (the items of a dictionary in insertion
  order, keys distinct).
\<close>

datatype pyval =
    PNone
  | PBool bool
  | PInt int
  | PFloat pyfloat
  | PStr string
  | PList "pyval list"
  | PDict "(string \<times> pyval) list"

text \<open>
  The exceptions that can leave the filter: \<open>TypeError\<close> from hashing, and
  \<open>UnicodeEncodeError\<close> from \<open>print\<close>.
\<close>

datatype error = TypeError | UnicodeEncodeError

text \<open>Comparison of a float with an integer and with a float is by exact value.\<close>

fun float_eq_int :: "pyfloat \<Rightarrow> int \<Rightarrow> bool" where
  "float_eq_int (Finite q) n = (q = of_int n)"
| "float_eq_int _ n = False"

fun float_eq :: "pyfloat \<Rightarrow> pyfloat \<Rightarrow> bool" where
  "float_eq (Finite q) (Finite r) = (q = r)"
| "float_eq PosInf PosInf = True"
| "float_eq NegInf NegInf = True"
| "float_eq _ _ = False"

text \<open>\<open>x is y\<close> as far as it can hold between values that are not equal: the same NaN
  object.\<close>

fun same_nan :: "pyval \<Rightarrow> pyval \<Rightarrow> bool" where
  "same_nan (PFloat (NaN i)) (PFloat (NaN j)) = (i = j)"
| "same_nan _ _ = False"

text \<open>
  Python's \<open>==\<close> on these values. \<open>bool\<close> is a subclass of \<open>int\<close>, so \<open>True == 1\<close> and
  \<open>False == 0\<close> hold, and numbers of different types are equal when their values are
  (\<open>1.0 == 1\<close>, \<open>1.0 == True\<close>). Lists are equal when they have the same length and their
  elements are identical or equal position by position; dictionaries are equal when they
  have the same number of items and every key of the left one is bound to an identical
  or equal value in the right one.
\<close>

function py_eq :: "pyval \<Rightarrow> pyval \<Rightarrow> bool"
  and py_eq_list :: "pyval list \<Rightarrow> pyval list \<Rightarrow> bool"
  and py_eq_items :: "(string \<times> pyval) list \<Rightarrow> (string \<times> pyval) list \<Rightarrow> bool"
where
  "py_eq PNone w = (case w of PNone \<Rightarrow> True | _ \<Rightarrow> False)"
| "py_eq (PBool b) w =
     (case w of
        PBool c \<Rightarrow> b = c
      | PInt n \<Rightarrow> (if b then 1 else 0) = n
      | PFloat g \<Rightarrow> float_eq_int g (if b then 1 else 0)
      | _ \<Rightarrow> False)"
| "py_eq (PInt m) w =
     (case w of
        PBool c \<Rightarrow> m = (if c then 1 else 0)
      | PInt n \<Rightarrow> m = n
      | PFloat g \<Rightarrow> float_eq_int g m
      | _ \<Rightarrow> False)"
| "py_eq (PFloat f) w =
     (case w of
        PBool c \<Rightarrow> float_eq_int f (if c then 1 else 0)
      | PInt n \<Rightarrow> float_eq_int f n
      | PFloat g \<Rightarrow> float_eq f g
      | _ \<Rightarrow> False)"
| "py_eq (PStr s) w = (case w of PStr t \<Rightarrow> s = t | _ \<Rightarrow> False)"
| "py_eq (PList xs) w = (case w of PList ys \<Rightarrow> py_eq_list xs ys | _ \<Rightarrow> False)"
| "py_eq (PDict kvs) w =
     (case w of PDict kws \<Rightarrow> length kvs = length kws \<and> py_eq_items kvs kws | _ \<Rightarrow> False)"
| "py_eq_list [] ys = (case ys of [] \<Rightarrow> True | _ \<Rightarrow> False)"
| "py_eq_list (x # xs) ys =
     (case ys of
        [] \<Rightarrow> False
      | y # ys' \<Rightarrow> (same_nan x y \<or> py_eq x y) \<and> py_eq_list xs ys')"
| "py_eq_items [] kws = True"
| "py_eq_items ((k, v) # kvs) kws =
     ((case map_of kws k of None \<Rightarrow> False | Some w \<Rightarrow> same_nan v w \<or> py_eq v w)
      \<and> py_eq_items kvs kws)"
  by pat_completeness auto
termination
  by (relation "measure (\<lambda>a. case a of
        Inl (v, _) \<Rightarrow> size v
      | Inr (Inl (xs, _)) \<Rightarrow> size_list size xs
      | Inr (Inr (kvs, _)) \<Rightarrow> size_list (size_prod (\<lambda>_. 0) size) kvs)") auto

text \<open>Identical or equal: the test that list membership and set lookup apply.\<close>

definition py_same :: "pyval \<Rightarrow> pyval \<Rightarrow> bool" where
  "py_same x y = (same_nan x y \<or> py_eq x y)"

text \<open>\<open>hash(v)\<close> succeeds on every value except lists and dictionaries.\<close>

fun hashable :: "pyval \<Rightarrow> bool" where
  "hashable (PList _) = False"
| "hashable (PDict _) = False"
| "hashable _ = True"

text \<open>The scalars of the data model: string, bool, int.\<close>

fun is_scalar :: "pyval \<Rightarrow> bool" where
  "is_scalar (PBool _) = True"
| "is_scalar (PInt _) = True"
| "is_scalar (PStr _) = True"
| "is_scalar _ = False"

text \<open>\<open>v in xs\<close> for a list \<open>xs\<close>: some element is identical or equal to \<open>v\<close>.\<close>

definition py_in :: "pyval \<Rightarrow> pyval list \<Rightarrow> bool" where
  "py_in v xs = list_ex (\<lambda>e. py_same e v) xs"

text \<open>
  \<open>set(xs)\<close>: the elements are hashed and inserted one by one, an element identical or
  equal to one already present is dropped, and an unhashable element raises
  \<open>TypeError\<close>. A set is represented by the list of its members.
\<close>

fun set_add_all :: "pyval list \<Rightarrow> pyval list \<Rightarrow> error + pyval list" where
  "set_add_all s [] = Inr s"
| "set_add_all s (x # xs) =
     (if \<not> hashable x then Inl TypeError
      else set_add_all (if py_in x s then s else s @ [x]) xs)"

definition py_set :: "pyval list \<Rightarrow> error + pyval list" where
  "py_set xs = set_add_all [] xs"

text \<open>\<open>a & b\<close> on two sets.\<close>

definition py_set_inter :: "pyval list \<Rightarrow> pyval list \<Rightarrow> pyval list" where
  "py_set_inter a b = filter (\<lambda>x. py_in x b) a"

text \<open>\<open>bool(s)\<close> on a set or list: non-empty.\<close>

definition py_truthy :: "'a list \<Rightarrow> bool" where
  "py_truthy s = (case s of [] \<Rightarrow> False | _ # _ \<Rightarrow> True)"

subsection \<open>Tools and filters\<close>

text \<open>
  A LangChain tool as far as the filter reads it. \<open>metadata\<close> is \<open>None\<close> when the
  attribute is missing or \<open>None\<close>, otherwise the dictionary of annotations.
\<close>

record tool =
  name :: string
  description :: string
  metadata :: "(string \<times> pyval) list option"

text \<open>
  A filter value is a callable or a plain value. A callable is given by what
  \<open>bool(f(v))\<close> yields: \<open>Some b\<close>, or \<open>None\<close> when the call raises an \<open>Exception\<close>.
\<close>

datatype filter_value =
    Callable "pyval \<Rightarrow> bool option"
  | Value pyval

type_synonym annotation_filters = "(string \<times> filter_value) list option"

text \<open>
  The custom filter takes the whole tool; \<open>Some b\<close> is the truth value of what it
  returns and \<open>None\<close> stands for a raised \<open>Exception\<close>.
\<close>

type_synonym custom_filter = "(tool \<Rightarrow> bool option) option"

text \<open>\<open>_get_annotation_value\<close>: \<open>tool.metadata.get(key, None)\<close> when the metadata is a
  non-empty dictionary, \<open>None\<close> otherwise.\<close>

definition get_annotation_value :: "tool \<Rightarrow> string \<Rightarrow> pyval" where
  "get_annotation_value t annotation_key =
     (case metadata t of
        None \<Rightarrow> PNone
      | Some md \<Rightarrow>
          if py_truthy md
          then (case map_of md annotation_key of None \<Rightarrow> PNone | Some v \<Rightarrow> v)
          else PNone)"

text \<open>\<open>_annotation_value_matches_filter\<close>: the callable test comes first, then the list
  test, then plain equality. Only the callable is guarded by \<open>try\<close>.\<close>

fun annotation_value_matches_filter :: "pyval \<Rightarrow> filter_value \<Rightarrow> error + bool" where
  "annotation_value_matches_filter annotation_value (Callable f) =
     (case f annotation_value of Some b \<Rightarrow> Inr b | None \<Rightarrow> Inr False)"
| "annotation_value_matches_filter annotation_value (Value (PList fs)) =
     (case annotation_value of
        PList xs \<Rightarrow>
          (case py_set xs of
             Inl e \<Rightarrow> Inl e
           | Inr sa \<Rightarrow>
               (case py_set fs of
                  Inl e \<Rightarrow> Inl e
                | Inr sf \<Rightarrow> Inr (py_truthy (py_set_inter sa sf))))
      | _ \<Rightarrow> Inr (py_in annotation_value fs))"
| "annotation_value_matches_filter annotation_value (Value filter_value) =
     Inr (py_eq annotation_value filter_value)"

text \<open>The loop of \<open>_should_include_tool\<close> over \<open>annotation_filters.items()\<close>.\<close>

fun check_annotation_filters :: "tool \<Rightarrow> (string \<times> filter_value) list \<Rightarrow> error + bool" where
  "check_annotation_filters t [] = Inr True"
| "check_annotation_filters t ((annotation_key, filter_value) # rest) =
     (case annotation_value_matches_filter (get_annotation_value t annotation_key) filter_value of
        Inl e \<Rightarrow> Inl e
      | Inr b \<Rightarrow> if \<not> b then Inr False else check_annotation_filters t rest)"

text \<open>\<open>_should_include_tool\<close>: the custom filter first, inside \<open>try\<close>; then the
  annotation filters when the dictionary is given and non-empty.\<close>

definition apply_annotation_filters :: "tool \<Rightarrow> annotation_filters \<Rightarrow> error + bool" where
  "apply_annotation_filters t annotation_filters =
     (case annotation_filters of
        None \<Rightarrow> Inr True
      | Some items \<Rightarrow> if py_truthy items then check_annotation_filters t items else Inr True)"

definition should_include_tool ::
  "tool \<Rightarrow> annotation_filters \<Rightarrow> custom_filter \<Rightarrow> error + bool" where
  "should_include_tool t annotation_filters custom_filter =
     (case custom_filter of
        None \<Rightarrow> apply_annotation_filters t annotation_filters
      | Some p \<Rightarrow>
          (case p t of
             None \<Rightarrow> Inr False
           | Some b \<Rightarrow> if \<not> b then Inr False else apply_annotation_filters t annotation_filters))"


subsection \<open>The filtering pass\<close>

text \<open>
  What \<open>print\<close> writes when \<open>debug\<close> is set, one constructor per message, carrying the
  data the message is formatted from.
\<close>

datatype trace_line =
    Loaded nat
  | NoFilters
  | Applying "string list option"
  | Including string
  | Excluding string "(string \<times> pyval) list"
  | FilteredTo nat

text \<open>
  \<open>print\<close> encodes the text with the encoding of standard output and raises
  \<open>UnicodeEncodeError\<close>, writing nothing, when a character has no encoding there. The
  messages \<open>Loaded\<close>, \<open>NoFilters\<close> and \<open>FilteredTo\<close> are ASCII whatever their data, which
  every encoding of a text stream encodes. The message \<open>Including\<close> starts with U+2713 and
  \<open>Excluding\<close> with U+2717, and these two and \<open>Applying\<close> hold text taken from the tools
  and the filters; whether such a line can be encoded belongs to the stream, which is
  given as the set of these lines that it can encode.
\<close>

type_synonym text_stream = "trace_line \<Rightarrow> bool"

definition writable :: "text_stream \<Rightarrow> trace_line \<Rightarrow> bool" where
  "writable stdout line =
     (case line of
        Loaded _ \<Rightarrow> True
      | NoFilters \<Rightarrow> True
      | FilteredTo _ \<Rightarrow> True
      | _ \<Rightarrow> stdout line)"

text \<open>\<open>if debug: print(line)\<close>, on the text printed so far.\<close>

definition debug_print ::
  "text_stream \<Rightarrow> bool \<Rightarrow> trace_line \<Rightarrow> trace_line list \<Rightarrow> error + trace_line list" where
  "debug_print stdout debug line out =
     (if debug
      then (if writable stdout line then Inr (out @ [line]) else Inl UnicodeEncodeError)
      else Inr out)"

definition annotations_info :: "tool \<Rightarrow> annotation_filters \<Rightarrow> (string \<times> pyval) list" where
  "annotations_info t annotation_filters =
     (case annotation_filters of
        None \<Rightarrow> []
      | Some items \<Rightarrow> map (\<lambda>(k, _). (k, get_annotation_value t k)) items)"

text \<open>
  The \<open>for tool in all_tools\<close> loop, with the state it updates: \<open>filtered_tools\<close> and the
  text printed so far. An exception leaving \<open>_should_include_tool\<close> or \<open>print\<close> ends the
  loop.
\<close>

fun filter_loop ::
  "text_stream \<Rightarrow> annotation_filters \<Rightarrow> custom_filter \<Rightarrow> bool \<Rightarrow> tool list \<Rightarrow> tool list
     \<Rightarrow> trace_line list \<Rightarrow> trace_line list \<times> (error + tool list)" where
  "filter_loop stdout af cf debug [] filtered_tools out = (out, Inr filtered_tools)"
| "filter_loop stdout af cf debug (t # ts) filtered_tools out =
     (case should_include_tool t af cf of
        Inl e \<Rightarrow> (out, Inl e)
      | Inr b \<Rightarrow>
          if b
          then (case debug_print stdout debug (Including (name t)) out of
                  Inl e \<Rightarrow> (out, Inl e)
                | Inr out' \<Rightarrow> filter_loop stdout af cf debug ts (filtered_tools @ [t]) out')
          else (case debug_print stdout debug
                       (Excluding (name t) (annotations_info t af)) out of
                  Inl e \<Rightarrow> (out, Inl e)
                | Inr out' \<Rightarrow> filter_loop stdout af cf debug ts filtered_tools out'))"

definition has_filters :: "annotation_filters \<Rightarrow> bool" where
  "has_filters annotation_filters =
     (case annotation_filters of None \<Rightarrow> False | Some items \<Rightarrow> py_truthy items)"

definition has_custom_filter :: "custom_filter \<Rightarrow> bool" where
  "has_custom_filter custom_filter = (case custom_filter of None \<Rightarrow> False | Some _ \<Rightarrow> True)"

text \<open>The data of the message \<open>Applying filters: {annotation_filters or 'custom_filter'}\<close>.\<close>

definition applying_line :: "annotation_filters \<Rightarrow> trace_line" where
  "applying_line annotation_filters =
     Applying (if has_filters annotation_filters
               then map_option (map fst) annotation_filters
               else None)"

text \<open>
  \<open>load_filtered_mcp_tools\<close>, taking the standard output stream and the list that
  \<open>load_mcp_tools(session)\<close> returned. The result is the printed text together with the
  returned list or the exception raised.
\<close>

definition load_filtered_mcp_tools ::
  "text_stream \<Rightarrow> tool list \<Rightarrow> annotation_filters \<Rightarrow> custom_filter \<Rightarrow> bool
     \<Rightarrow> trace_line list \<times> (error + tool list)" where
  "load_filtered_mcp_tools stdout all_tools annotation_filters custom_filter debug =
     (case debug_print stdout debug (Loaded (length all_tools)) [] of
        Inl e \<Rightarrow> ([], Inl e)
      | Inr out0 \<Rightarrow>
          if \<not> has_filters annotation_filters \<and> \<not> has_custom_filter custom_filter
          then (case debug_print stdout debug NoFilters out0 of
                  Inl e \<Rightarrow> (out0, Inl e)
                | Inr out1 \<Rightarrow> (out1, Inr all_tools))
          else
            (case debug_print stdout debug (applying_line annotation_filters) out0 of
               Inl e \<Rightarrow> (out0, Inl e)
             | Inr out1 \<Rightarrow>
                 (case filter_loop stdout annotation_filters custom_filter debug all_tools [] out1 of
                    (out2, Inl e) \<Rightarrow> (out2, Inl e)
                  | (out2, Inr filtered_tools) \<Rightarrow>
                      (case debug_print stdout debug (FilteredTo (length filtered_tools)) out2 of
                         Inl e \<Rightarrow> (out2, Inl e)
                       | Inr out3 \<Rightarrow> (out3, Inr filtered_tools)))))"

subsection \<open>Convenience loaders\<close>

text \<open>\<open>load_toolset_tools\<close> takes one toolset name or a list of names.\<close>

datatype toolsets_arg = One string | Many "string list"

definition load_toolset_tools ::
  "text_stream \<Rightarrow> tool list \<Rightarrow> toolsets_arg \<Rightarrow> bool
     \<Rightarrow> trace_line list \<times> (error + tool list)" where
  "load_toolset_tools stdout all_tools toolsets debug =
     (let toolsets_list = (case toolsets of One s \<Rightarrow> [s] | Many l \<Rightarrow> l)
      in load_filtered_mcp_tools stdout all_tools
           (Some [(''toolsets'', Value (PList (map PStr toolsets_list)))]) None debug)"

definition load_readonly_tools ::
  "text_stream \<Rightarrow> tool list \<Rightarrow> bool \<Rightarrow> trace_line list \<times> (error + tool list)" where
  "load_readonly_tools stdout all_tools debug =
     load_filtered_mcp_tools stdout all_tools
       (Some [(''readOnlyHint'', Value (PBool True))]) None debug"

definition load_non_destructive_tools ::
  "text_stream \<Rightarrow> tool list \<Rightarrow> bool \<Rightarrow> trace_line list \<times> (error + tool list)" where
  "load_non_destructive_tools stdout all_tools debug =
     load_filtered_mcp_tools stdout all_tools
       (Some [(''destructiveHint'', Value (PBool False))]) None debug"

definition load_closed_world_tools ::
  "text_stream \<Rightarrow> tool list \<Rightarrow> bool \<Rightarrow> trace_line list \<times> (error + tool list)" where
  "load_closed_world_tools stdout all_tools debug =
     load_filtered_mcp_tools stdout all_tools
       (Some [(''openWorldHint'', Value (PBool False))]) None debug"

definition load_safe_tools ::
  "text_stream \<Rightarrow> tool list \<Rightarrow> bool \<Rightarrow> trace_line list \<times> (error + tool list)" where
  "load_safe_tools stdout all_tools debug =
     load_filtered_mcp_tools stdout all_tools
       (Some [(''readOnlyHint'', Value (PBool True)),
              (''destructiveHint'', Value (PBool False)),
              (''openWorldHint'', Value (PBool False))]) None debug"

subsection \<open>Vocabulary of the properties\<close>

text \<open>The entries of a filter dictionary; none when the dictionary is not given.\<close>

definition filter_items :: "annotation_filters \<Rightarrow> (string \<times> filter_value) list" where
  "filter_items annotation_filters =
     (case annotation_filters of None \<Rightarrow> [] | Some items \<Rightarrow> items)"

text \<open>The custom filter lets a tool through: it is not given, or it returns a true value.\<close>

definition custom_passes :: "custom_filter \<Rightarrow> tool \<Rightarrow> bool" where
  "custom_passes custom_filter t =
     (case custom_filter of None \<Rightarrow> True | Some p \<Rightarrow> p t = Some True)"

text \<open>One entry of the filter dictionary matches the tool.\<close>

definition key_matches :: "tool \<Rightarrow> string \<times> filter_value \<Rightarrow> bool" where
  "key_matches t entry =
     (annotation_value_matches_filter (get_annotation_value t (fst entry)) (snd entry) = Inr True)"

text \<open>The tool has no annotation under the key: no metadata, or the key is not in it.\<close>

definition lacks_annotation :: "tool \<Rightarrow> string \<Rightarrow> bool" where
  "lacks_annotation t k =
     (case metadata t of None \<Rightarrow> True | Some md \<Rightarrow> map_of md k = None)"

text \<open>A filter value of the data model that is not a predicate: a scalar or a list of
  scalars.\<close>

definition scalar_or_scalars :: "pyval \<Rightarrow> bool" where
  "scalar_or_scalars v =
     (case v of PList fs \<Rightarrow> list_all is_scalar fs | _ \<Rightarrow> is_scalar v)"

text \<open>The numeric value of a bool, an int or a finite float.\<close>

fun py_number :: "pyval \<Rightarrow> rat option" where
  "py_number (PBool b) = Some (if b then 1 else 0)"
| "py_number (PInt n) = Some (of_int n)"
| "py_number (PFloat (Finite q)) = Some q"
| "py_number _ = None"

text \<open>What set lookup tells hashable values apart by: two hashable values are identical
  or equal exactly when they have the same key.\<close>

datatype hash_key = KNone | KNumber rat | KInf bool | KNaN nat | KStr string | KOther

fun key_of :: "pyval \<Rightarrow> hash_key" where
  "key_of PNone = KNone"
| "key_of (PBool b) = KNumber (if b then 1 else 0)"
| "key_of (PInt n) = KNumber (of_int n)"
| "key_of (PFloat (Finite q)) = KNumber q"
| "key_of (PFloat PosInf) = KInf True"
| "key_of (PFloat NegInf) = KInf False"
| "key_of (PFloat (NaN i)) = KNaN i"
| "key_of (PStr s) = KStr s"
| "key_of _ = KOther"

text \<open>The line that the loop prints for a tool when \<open>debug\<close> is set.\<close>

definition tool_line :: "annotation_filters \<Rightarrow> custom_filter \<Rightarrow> tool \<Rightarrow> trace_line" where
  "tool_line af cf t =
     (if should_include_tool t af cf = Inr True then Including (name t)
      else Excluding (name t) (annotations_info t af))"

subsection \<open>Example streams and tools\<close>

text \<open>
  A standard output with UTF-8 encoding takes every line of the examples. One with ASCII
  encoding cannot encode U+2713 and U+2717, so it takes no \<open>Including\<close> and no
  \<open>Excluding\<close> line; the other lines of the examples are ASCII.
\<close>

definition utf8_stdout :: text_stream where
  "utf8_stdout line = True"

definition ascii_stdout :: text_stream where
  "ascii_stdout line =
     (case line of Including _ \<Rightarrow> False | Excluding _ _ \<Rightarrow> False | _ \<Rightarrow> True)"


text \<open>
  The five tools of the example scenario: A and C carry \<open>toolsets = ["performance"]\<close>,
  B carries \<open>["security"]\<close>, D and E carry no \<open>toolsets\<close>.
\<close>

definition tool_A :: tool where
  "tool_A = \<lparr>name = ''A'', description = ''system status'',
     metadata = Some [(''toolsets'', PList [PStr ''performance'']),
                      (''readOnlyHint'', PBool True)]\<rparr>"

definition tool_B :: tool where
  "tool_B = \<lparr>name = ''B'', description = ''user audit'',
     metadata = Some [(''toolsets'', PList [PStr ''security'']),
                      (''readOnlyHint'', PBool True)]\<rparr>"

definition tool_C :: tool where
  "tool_C = \<lparr>name = ''C'', description = ''end job'',
     metadata = Some [(''toolsets'', PList [PStr ''performance'']),
                      (''readOnlyHint'', PBool False)]\<rparr>"

definition tool_D :: tool where
  "tool_D = \<lparr>name = ''D'', description = ''untagged'',
     metadata = Some [(''readOnlyHint'', PBool True)]\<rparr>"

definition tool_E :: tool where
  "tool_E = \<lparr>name = ''E'', description = ''bare'', metadata = None\<rparr>"

text \<open>A tool tagged with two toolsets.\<close>

definition tool_multi :: tool where
  "tool_multi = \<lparr>name = ''M'', description = ''memory pools'',
     metadata = Some [(''toolsets'', PList [PStr ''performance'', PStr ''sysadmin''])]\<rparr>"

text \<open>A tool whose \<open>toolsets\<close> annotation is a list holding an object instead of names.\<close>

definition tool_malformed :: tool where
  "tool_malformed = \<lparr>name = ''X'', description = ''odd'',
     metadata = Some [(''toolsets'', PList [PDict [(''name'', PStr ''performance'')]]),
                      (''readOnlyHint'', PBool False)]\<rparr>"

text \<open>A tool whose \<open>readOnlyHint\<close> is the integer 1.\<close>

definition tool_int_hint :: tool where
  "tool_int_hint = \<lparr>name = ''I'', description = ''numeric hint'',
     metadata = Some [(''readOnlyHint'', PInt 1)]\<rparr>"

text \<open>Two custom filters: \<open>lambda tool: tool.name == "A"\<close>, and one that always raises.\<close>

definition only_A :: "tool \<Rightarrow> bool option" where
  "only_A t = Some (name t = ''A'')"

definition always_raises :: "tool \<Rightarrow> bool option" where
  "always_raises t = None"

text \<open>An annotation predicate: \<open>lambda v: v is None\<close>.\<close>

definition is_missing :: "pyval \<Rightarrow> bool option" where
  "is_missing v = Some (case v of PNone \<Rightarrow> True | _ \<Rightarrow> False)"

text \<open>Filter entries used in the examples.\<close>

definition toolsets_entry :: "string list \<Rightarrow> string \<times> filter_value" where
  "toolsets_entry names = (''toolsets'', Value (PList (map PStr names)))"

definition readonly_entry :: "bool \<Rightarrow> string \<times> filter_value" where
  "readonly_entry b = (''readOnlyHint'', Value (PBool b))"

text \<open>A tool whose \<open>readOnlyHint\<close> is the float 1.0.\<close>

definition tool_float_hint :: tool where
  "tool_float_hint = \<lparr>name = ''F'', description = ''float hint'',
     metadata = Some [(''readOnlyHint'', PFloat (Finite 1))]\<rparr>"

definition five_tools :: "tool list" where
  "five_tools = [tool_A, tool_B, tool_C, tool_D, tool_E]"

lemmas example_defs =
  tool_A_def tool_B_def tool_C_def tool_D_def tool_E_def tool_multi_def
  tool_malformed_def tool_int_hint_def tool_float_hint_def five_tools_def
  utf8_stdout_def ascii_stdout_def
  only_A_def always_raises_def is_missing_def toolsets_entry_def readonly_entry_def

lemmas filter_defs =
  load_filtered_mcp_tools_def has_filters_def has_custom_filter_def
  should_include_tool_def apply_annotation_filters_def get_annotation_value_def
  py_truthy_def py_set_def py_set_inter_def py_in_def py_same_def annotations_info_def
  debug_print_def writable_def applying_line_def
  load_non_destructive_tools_def load_closed_world_tools_def
  load_toolset_tools_def load_readonly_tools_def load_safe_tools_def
  key_matches_def custom_passes_def lacks_annotation_def scalar_or_scalars_def

section \<open>Properties\<close>

subsection \<open>Python equality and sets\<close>

lemma py_eq_scalar_right:
  "is_scalar w \<Longrightarrow>
   py_eq v w \<longleftrightarrow>
     ((\<exists>s. v = PStr s \<and> w = PStr s) \<or> (\<exists>q. py_number v = Some q \<and> py_number w = Some q))"
  by (cases v rule: py_number.cases; cases w rule: py_number.cases) auto

lemma same_key:
  "hashable a \<Longrightarrow> hashable b \<Longrightarrow> py_same a b \<longleftrightarrow> key_of a = key_of b"
  by (cases a rule: key_of.cases; cases b rule: key_of.cases) (auto simp: py_same_def)

lemma py_same_refl: "hashable x \<Longrightarrow> py_same x x"
  by (simp add: same_key)

lemma py_same_sym: "hashable a \<Longrightarrow> hashable b \<Longrightarrow> py_same a b = py_same b a"
  by (auto simp: same_key)

lemma py_same_trans:
  "hashable a \<Longrightarrow> hashable b \<Longrightarrow> hashable c \<Longrightarrow> py_same a b \<Longrightarrow> py_same b c \<Longrightarrow> py_same a c"
  by (simp add: same_key)

lemma py_same_scalar: "is_scalar f \<Longrightarrow> py_same x f = py_eq x f"
  by (cases f) (auto simp: py_same_def)

lemma py_same_scalar_left: "is_scalar f \<Longrightarrow> py_same f x = py_eq f x"
  by (cases f) (auto simp: py_same_def)

lemma is_scalar_hashable: "is_scalar v \<Longrightarrow> hashable v"
  by (cases v) auto

lemma scalars_hashable: "list_all is_scalar fs \<Longrightarrow> list_all hashable fs"
  by (induction fs) (auto simp: is_scalar_hashable)

lemma py_in_iff: "py_in v xs \<longleftrightarrow> (\<exists>e\<in>set xs. py_same e v)"
  by (simp add: py_in_def list_ex_iff)

lemma py_truthy_iff: "py_truthy s \<longleftrightarrow> s \<noteq> []"
  by (cases s) (simp_all add: py_truthy_def)

lemma set_add_all_unhashable:
  "\<not> list_all hashable xs \<Longrightarrow> set_add_all s xs = Inl TypeError"
  by (induction xs arbitrary: s) auto

lemma set_add_all_error: "set_add_all s xs = Inl e \<Longrightarrow> e = TypeError"
  by (induction xs arbitrary: s) (auto split: if_splits)

text \<open>On hashable elements \<open>set\<close> succeeds; it keeps members of the list only, and every
  element of the list has a representative in the set.\<close>

lemma set_add_all_hashable:
  "list_all hashable xs \<Longrightarrow>
   \<exists>r. set_add_all s xs = Inr r \<and> set s \<subseteq> set r \<and> set r \<subseteq> set s \<union> set xs
        \<and> (\<forall>x\<in>set xs. \<exists>y\<in>set r. py_same y x)"
proof (induction xs arbitrary: s)
  case Nil
  show ?case by simp
next
  case (Cons x xs)
  let ?s' = "if py_in x s then s else s @ [x]"
  from Cons.prems have hx: "hashable x" and hxs: "list_all hashable xs" by simp_all
  from Cons.IH [OF hxs, of ?s'] obtain r where
    r: "set_add_all ?s' xs = Inr r" "set ?s' \<subseteq> set r" "set r \<subseteq> set ?s' \<union> set xs"
       "\<forall>x\<in>set xs. \<exists>y\<in>set r. py_same y x"
    by blast
  have "\<exists>y\<in>set ?s'. py_same y x"
    using py_same_refl [OF hx] by (auto simp: py_in_iff)
  with r(2) have here: "\<exists>y\<in>set r. py_same y x" by blast
  have "set_add_all s (x # xs) = Inr r" using hx r(1) by simp
  moreover have "set s \<subseteq> set r" using r(2) by (auto split: if_splits)
  moreover have "set r \<subseteq> set s \<union> set (x # xs)" using r(3) by (auto split: if_splits)
  moreover have "\<forall>z\<in>set (x # xs). \<exists>y\<in>set r. py_same y z" using here r(4) by simp
  ultimately show ?case by blast
qed

lemma py_set_hashable:
  assumes "list_all hashable xs"
  obtains r where "py_set xs = Inr r" "set r \<subseteq> set xs" "\<forall>x\<in>set xs. \<exists>y\<in>set r. py_same y x"
  using set_add_all_hashable [OF assms, of "[]"] unfolding py_set_def by auto

subsection \<open>Matching one annotation value\<close>

text \<open>List filter against list annotation: the value of \<open>bool(set(a) & set(f))\<close>.\<close>

lemma list_vs_list:
  "annotation_value_matches_filter (PList xs) (Value (PList fs)) =
     (if list_all hashable xs \<and> list_all hashable fs
      then Inr (\<exists>x\<in>set xs. \<exists>f\<in>set fs. py_same x f)
      else Inl TypeError)"
proof (cases "list_all hashable xs \<and> list_all hashable fs")
  case False
  then show ?thesis
    by (auto simp: py_set_def set_add_all_unhashable split: sum.splits
          dest: set_add_all_error)
next
  case True
  then have hx: "list_all hashable xs" and hf: "list_all hashable fs" by simp_all
  from hx obtain sa where sa: "py_set xs = Inr sa" "set sa \<subseteq> set xs"
      "\<forall>x\<in>set xs. \<exists>y\<in>set sa. py_same y x"
    by (rule py_set_hashable)
  from hf obtain sf where sf: "py_set fs = Inr sf" "set sf \<subseteq> set fs"
      "\<forall>x\<in>set fs. \<exists>y\<in>set sf. py_same y x"
    by (rule py_set_hashable)
  have H: "\<And>v. v \<in> set xs \<union> set fs \<Longrightarrow> hashable v"
    using hx hf by (auto simp: list_all_iff)
  have "py_truthy (py_set_inter sa sf) \<longleftrightarrow> (\<exists>x\<in>set sa. \<exists>f\<in>set sf. py_same f x)"
    by (auto simp: py_truthy_iff py_set_inter_def py_in_iff filter_empty_conv)
  also have "\<dots> \<longleftrightarrow> (\<exists>x\<in>set xs. \<exists>f\<in>set fs. py_same x f)"
  proof
    assume "\<exists>x\<in>set sa. \<exists>f\<in>set sf. py_same f x"
    then obtain x f where "x \<in> set sa" "f \<in> set sf" "py_same f x" by blast
    then have "x \<in> set xs" "f \<in> set fs" "py_same x f"
      using sa(2) sf(2) H py_same_sym [of f x] by auto
    then show "\<exists>x\<in>set xs. \<exists>f\<in>set fs. py_same x f" by blast
  next
    assume "\<exists>x\<in>set xs. \<exists>f\<in>set fs. py_same x f"
    then obtain x f where xf: "x \<in> set xs" "f \<in> set fs" "py_same x f" by blast
    from sa(3) xf(1) obtain x' where x': "x' \<in> set sa" "py_same x' x" by blast
    from sf(3) xf(2) obtain f' where f': "f' \<in> set sf" "py_same f' f" by blast
    have hh: "hashable x" "hashable f" "hashable x'" "hashable f'"
      using H xf x'(1) f'(1) sa(2) sf(2) by auto
    have "key_of f' = key_of x'"
      using xf(3) x'(2) f'(2) hh by (simp add: same_key)
    then have "py_same f' x'" using hh by (simp add: same_key)
    with x'(1) f'(1) show "\<exists>x\<in>set sa. \<exists>f\<in>set sf. py_same f x" by blast
  qed
  finally show ?thesis using True sa(1) sf(1) by simp
qed

lemma other_vs_list:
  "\<forall>xs. av \<noteq> PList xs \<Longrightarrow>
   annotation_value_matches_filter av (Value (PList fs)) = Inr (\<exists>f\<in>set fs. py_same f av)"
  by (cases av) (auto simp: py_in_iff)

lemma any_vs_plain:
  "\<forall>fs. fv \<noteq> PList fs \<Longrightarrow>
   annotation_value_matches_filter av (Value fv) = Inr (py_eq av fv)"
  by (cases fv) auto

text \<open>The only way for the matching function to raise.\<close>

lemma matches_raises_iff:
  "annotation_value_matches_filter av fv = Inl e \<longleftrightarrow>
     e = TypeError \<and>
     (\<exists>xs fs. av = PList xs \<and> fv = Value (PList fs)
        \<and> \<not> (list_all hashable xs \<and> list_all hashable fs))"
proof (cases fv)
  case (Callable f)
  then show ?thesis by (simp split: option.splits)
next
  case (Value v)
  show ?thesis
  proof (cases "\<exists>fs. v = PList fs")
    case False
    then show ?thesis using Value any_vs_plain [of v av] by auto
  next
    case True
    then obtain fs where v: "v = PList fs" by blast
    show ?thesis
    proof (cases "\<exists>xs. av = PList xs")
      case False
      then show ?thesis using Value v other_vs_list [of av fs] by auto
    next
      case True
      then obtain xs where av: "av = PList xs" by blast
      have "annotation_value_matches_filter av fv =
              (if list_all hashable xs \<and> list_all hashable fs
               then Inr (\<exists>x\<in>set xs. \<exists>f\<in>set fs. py_same x f)
               else Inl TypeError)"
        unfolding av Value v by (rule list_vs_list)
      then show ?thesis
        using av Value v by (auto split: if_splits)
    qed
  qed
qed

subsection \<open>Deciding one tool\<close>

lemma apply_annotation_filters_items:
  "apply_annotation_filters t af = check_annotation_filters t (filter_items af)"
  by (cases af) (auto simp: apply_annotation_filters_def filter_items_def py_truthy_def
        split: list.splits)

lemma should_include_tool_cases:
  "should_include_tool t af cf =
     (if custom_passes cf t then check_annotation_filters t (filter_items af) else Inr False)"
  by (auto simp: should_include_tool_def custom_passes_def apply_annotation_filters_items
        split: option.splits)

lemma check_annotation_filters_True:
  "check_annotation_filters t items = Inr True \<longleftrightarrow> (\<forall>entry\<in>set items. key_matches t entry)"
proof (induction items)
  case Nil
  show ?case by simp
next
  case (Cons entry items)
  obtain k fv where e: "entry = (k, fv)" by (cases entry)
  show ?case
  proof (cases "annotation_value_matches_filter (get_annotation_value t k) fv")
    case (Inl err)
    then show ?thesis using e by (simp add: key_matches_def)
  next
    case (Inr b)
    then show ?thesis using e Cons.IH by (cases b) (simp_all add: key_matches_def)
  qed
qed

lemma check_annotation_filters_stops:
  assumes "\<forall>entry\<in>set pre. key_matches t entry"
    and "annotation_value_matches_filter (get_annotation_value t k) fv = Inr False"
  shows "check_annotation_filters t (pre @ (k, fv) # rest) = Inr False"
  using assms by (induction pre) (auto simp: key_matches_def)

lemma check_annotation_filters_member:
  assumes "(k, fv) \<in> set items"
    and "annotation_value_matches_filter (get_annotation_value t k) fv = Inr False"
  shows "check_annotation_filters t items \<noteq> Inr True"
proof -
  from assms(2) have "\<not> key_matches t (k, fv)" by (simp add: key_matches_def)
  with assms(1) show ?thesis by (auto simp: check_annotation_filters_True)
qed

text \<open>Deciding a tool can raise in one way only: an entry with a list filter value meets
  a list annotation, and one of the two lists holds an unhashable element.\<close>

lemma check_annotation_filters_raises:
  "check_annotation_filters t items = Inl e \<Longrightarrow>
   e = TypeError \<and>
   (\<exists>k fs xs. (k, Value (PList fs)) \<in> set items \<and> get_annotation_value t k = PList xs
      \<and> \<not> (list_all hashable xs \<and> list_all hashable fs))"
proof (induction items)
  case Nil
  then show ?case by simp
next
  case (Cons entry items)
  obtain k fv where en: "entry = (k, fv)" by (cases entry)
  show ?case
  proof (cases "annotation_value_matches_filter (get_annotation_value t k) fv")
    case (Inl err)
    with Cons.prems en have "err = e" by simp
    with Inl obtain xs fs where "e = TypeError" "get_annotation_value t k = PList xs"
        "fv = Value (PList fs)" "\<not> (list_all hashable xs \<and> list_all hashable fs)"
      unfolding matches_raises_iff by blast
    then show ?thesis using en by auto
  next
    case (Inr b)
    with Cons.prems en have "b" "check_annotation_filters t items = Inl e"
      by (auto split: if_splits)
    from Cons.IH [OF this(2)] show ?thesis by auto
  qed
qed

lemma should_include_tool_raises:
  "should_include_tool t af cf = Inl e \<Longrightarrow>
   e = TypeError \<and> custom_passes cf t \<and>
   (\<exists>k fs xs. (k, Value (PList fs)) \<in> set (filter_items af) \<and> get_annotation_value t k = PList xs
      \<and> \<not> (list_all hashable xs \<and> list_all hashable fs))"
  by (auto simp: should_include_tool_cases split: if_splits
        dest: check_annotation_filters_raises)

lemma should_include_tool_error: "should_include_tool t af cf = Inl e \<Longrightarrow> e = TypeError"
  by (simp add: should_include_tool_raises)

lemma lacking_gives_None: "lacks_annotation t k \<Longrightarrow> get_annotation_value t k = PNone"
  by (auto simp: lacks_annotation_def get_annotation_value_def split: option.splits)

lemma None_vs_scalars:
  "scalar_or_scalars fv \<Longrightarrow> annotation_value_matches_filter PNone (Value fv) = Inr False"
proof (cases "\<exists>fs. fv = PList fs")
  case True
  assume s: "scalar_or_scalars fv"
  from True obtain fs where fv: "fv = PList fs" by blast
  with s have "\<forall>f\<in>set fs. is_scalar f" by (simp add: scalar_or_scalars_def list_all_iff)
  moreover have "is_scalar f \<Longrightarrow> \<not> py_same f PNone" for f
    by (cases f) (auto simp: py_same_def)
  ultimately have "\<forall>f\<in>set fs. \<not> py_same f PNone" by blast
  then show ?thesis using fv by (simp add: py_in_iff)
next
  case False
  assume "scalar_or_scalars fv"
  with False show ?thesis by (cases fv) (auto simp: scalar_or_scalars_def)
qed

subsection \<open>The pass over the tool list\<close>

lemma debug_print_cases:
  "debug_print stdout d line out =
     (if d \<and> \<not> writable stdout line then Inl UnicodeEncodeError
      else Inr (if d then out @ [line] else out))"
  by (simp add: debug_print_def)

lemma writable_ascii [simp]:
  "writable stdout (Loaded n)" "writable stdout NoFilters" "writable stdout (FilteredTo n)"
  by (simp_all add: writable_def)

text \<open>When the loop returns a list: deciding no tool raises, every line it has to print
  can be written, and the list is the accumulated tools followed by the included ones.\<close>

lemma filter_loop_returns_iff:
  "snd (filter_loop stdout af cf d ts acc out) = Inr R \<longleftrightarrow>
     (\<forall>t\<in>set ts. should_include_tool t af cf \<noteq> Inl TypeError)
     \<and> (d \<longrightarrow> (\<forall>t\<in>set ts. writable stdout (tool_line af cf t)))
     \<and> R = acc @ filter (\<lambda>t. should_include_tool t af cf = Inr True) ts"
proof (induction ts arbitrary: acc out)
  case Nil
  show ?case by auto
next
  case (Cons t ts)
  show ?case
  proof (cases "should_include_tool t af cf")
    case (Inl e)
    then have "e = TypeError" by (rule should_include_tool_error)
    with Inl show ?thesis by simp
  next
    case (Inr b)
    show ?thesis
    proof (cases b)
      case True
      with Inr have l: "tool_line af cf t = Including (name t)" by (simp add: tool_line_def)
      show ?thesis
      proof (cases "d \<and> \<not> writable stdout (Including (name t))")
        case True
        with Inr \<open>b\<close> l show ?thesis by (auto simp: debug_print_cases)
      next
        case False
        with Inr \<open>b\<close> l show ?thesis
          by (simp add: debug_print_cases Cons.IH) blast
      qed
    next
      case False
      with Inr have l: "tool_line af cf t = Excluding (name t) (annotations_info t af)"
        by (simp add: tool_line_def)
      show ?thesis
      proof (cases "d \<and> \<not> writable stdout (Excluding (name t) (annotations_info t af))")
        case True
        with Inr \<open>\<not> b\<close> l show ?thesis by (auto simp: debug_print_cases)
      next
        case False
        with Inr \<open>\<not> b\<close> l show ?thesis
          by (simp add: debug_print_cases Cons.IH) blast
      qed
    qed
  qed
qed


text \<open>With \<open>debug\<close> set the loop ends as it does without, unless a \<open>print\<close> fails.\<close>

lemma filter_loop_debug:
  "snd (filter_loop stdout af cf True ts acc out) = Inl UnicodeEncodeError
   \<or> snd (filter_loop stdout af cf True ts acc out)
       = snd (filter_loop stdout' af cf False ts acc out')"
proof (induction ts arbitrary: acc out)
  case Nil
  show ?case by simp
next
  case (Cons t ts)
  show ?case
  proof (cases "should_include_tool t af cf")
    case (Inl e)
    then show ?thesis by simp
  next
    case (Inr b)
    then show ?thesis
      using Cons.IH by (cases b) (auto simp: debug_print_cases)
  qed
qed


lemma snd_loop_case:
  "snd (case p of (out2, Inl e) \<Rightarrow> (out2, Inl e)
        | (out2, Inr ft) \<Rightarrow> (g out2 ft, Inr ft)) = snd p"
  for p :: "trace_line list \<times> (error + tool list)"
  by (cases p) (auto split: sum.splits)


text \<open>What the pass returns, in the three situations of the code: the early return, a
  failing \<open>print\<close> of the \<open>Applying\<close> line, and the loop.\<close>

lemma load_result:
  "snd (load_filtered_mcp_tools stdout L af cf d) =
     (if \<not> has_filters af \<and> \<not> has_custom_filter cf then Inr L
      else if d \<and> \<not> writable stdout (applying_line af) then Inl UnicodeEncodeError
      else snd (filter_loop stdout af cf d L []
                  (if d then [Loaded (length L), applying_line af] else [])))"
  unfolding load_filtered_mcp_tools_def
  by (simp add: debug_print_cases snd_loop_case del: filter_loop.simps)

lemma load_returns_iff:
  "snd (load_filtered_mcp_tools stdout L af cf d) = Inr R \<longleftrightarrow>
     (if \<not> has_filters af \<and> \<not> has_custom_filter cf then R = L
      else (d \<longrightarrow> writable stdout (applying_line af))
         \<and> (\<forall>t\<in>set L. should_include_tool t af cf \<noteq> Inl TypeError)
         \<and> (d \<longrightarrow> (\<forall>t\<in>set L. writable stdout (tool_line af cf t)))
         \<and> R = filter (\<lambda>t. should_include_tool t af cf = Inr True) L)"
  by (auto simp: load_result filter_loop_returns_iff)

text \<open>Callable filter values and custom filters never make the pass raise
  \<open>TypeError\<close>: that takes a list-valued entry in the filter dictionary.\<close>

lemma load_no_TypeError_without_list_entries:
  assumes "\<And>k fs. (k, Value (PList fs)) \<notin> set (filter_items af)"
  shows "snd (load_filtered_mcp_tools stdout L af cf d) \<noteq> Inl TypeError"
proof -
  have ok: "should_include_tool t af cf \<noteq> Inl TypeError" for t
    using should_include_tool_raises [of t af cf TypeError] assms by blast
  have q: "snd (filter_loop stdout af cf False L [] [])
             = Inr (filter (\<lambda>t. should_include_tool t af cf = Inr True) L)"
    using ok by (simp add: filter_loop_returns_iff)
  show ?thesis
  proof (cases d)
    case True
    have "snd (filter_loop stdout af cf True L [] out) \<noteq> Inl TypeError" for out
      using filter_loop_debug [of stdout af cf L "[]" out stdout "[]"] q by auto
    with True show ?thesis by (simp add: load_result)
  next
    case False
    with q show ?thesis by (simp add: load_result)
  qed
qed

lemma count_list_filter_le: "count_list (filter P xs) t \<le> count_list xs t"
  by (induction xs) auto



section \<open>The claims\<close>

text \<open>
  C6. With no filter dictionary, or an empty one, and no custom filter, the pass returns
  the list it was given, same tools in the same order, whatever the debug flag and the
  standard output.
\<close>

theorem no_filters_returns_input:
  "snd (load_filtered_mcp_tools stdout L None None debug) = Inr L
   \<and> snd (load_filtered_mcp_tools stdout L (Some []) None debug) = Inr L"
  by (simp add: load_result has_filters_def has_custom_filter_def py_truthy_def)

theorem no_filters_returns_input_witness:
  "snd (load_filtered_mcp_tools ascii_stdout five_tools None None True) = Inr five_tools
   \<and> snd (load_filtered_mcp_tools ascii_stdout five_tools (Some []) None True) = Inr five_tools"
  using no_filters_returns_input [of ascii_stdout five_tools True] by simp




text \<open>
  C7. A returned list is an ordered subset of the input: it is a subsequence of the input
  (same relative order), not longer than it, made of tools of the input only, and holds no
  tool more often than the input does.
\<close>

theorem result_is_subsequence:
  assumes "snd (load_filtered_mcp_tools stdout L af cf debug) = Inr R"
  shows "subseq R L \<and> length R \<le> length L \<and> set R \<subseteq> set L
     \<and> (\<forall>t. count_list R t \<le> count_list L t)"
proof -
  have R: "R = L \<or> R = filter (\<lambda>t. should_include_tool t af cf = Inr True) L"
    using assms by (auto simp: load_returns_iff split: if_splits)
  then have "subseq R L" by auto
  moreover from R have "\<forall>t. count_list R t \<le> count_list L t"
    using count_list_filter_le by auto
  moreover from R have "length R \<le> length L" by auto
  moreover from R have "set R \<subseteq> set L" by auto
  ultimately show ?thesis by blast
qed

theorem result_is_subsequence_witness:
  "snd (load_filtered_mcp_tools utf8_stdout five_tools
          (Some [toolsets_entry [''performance'']]) None True)
     = Inr [tool_A, tool_C]
   \<and> subseq [tool_A, tool_C] five_tools
   \<and> length [tool_A, tool_C] \<le> length five_tools
   \<and> set [tool_A, tool_C] \<subseteq> set five_tools"
proof -
  have h: "snd (load_filtered_mcp_tools utf8_stdout five_tools
                  (Some [toolsets_entry [''performance'']]) None True) = Inr [tool_A, tool_C]"
    by (simp add: filter_defs example_defs)
  from result_is_subsequence [OF h] h show ?thesis by blast
qed

text \<open>
  C8. Filtering is idempotent: running the pass again on a returned list, with the same
  filter dictionary, the same custom filter, the same debug flag and the same standard
  output, returns that list; so does running it again with the debug flag off, on any
  standard output.
\<close>

theorem filtering_is_idempotent:
  assumes "snd (load_filtered_mcp_tools stdout L af cf debug) = Inr R"
  shows "snd (load_filtered_mcp_tools stdout R af cf debug) = Inr R
     \<and> snd (load_filtered_mcp_tools stdout' R af cf False) = Inr R"
proof (cases "\<not> has_filters af \<and> \<not> has_custom_filter cf")
  case True
  then show ?thesis by (simp add: load_returns_iff)
next
  case False
  with assms have R: "R = filter (\<lambda>t. should_include_tool t af cf = Inr True) L"
    and a: "debug \<longrightarrow> writable stdout (applying_line af)"
    and w: "debug \<longrightarrow> (\<forall>t\<in>set L. writable stdout (tool_line af cf t))"
    by (simp_all add: load_returns_iff)
  from R have i: "\<forall>t\<in>set R. should_include_tool t af cf = Inr True" by simp
  then have n: "\<forall>t\<in>set R. should_include_tool t af cf \<noteq> Inl TypeError"
    and f: "filter (\<lambda>t. should_include_tool t af cf = Inr True) R = R"
    by (simp_all add: filter_id_conv)
  from R w have w': "debug \<longrightarrow> (\<forall>t\<in>set R. writable stdout (tool_line af cf t))" by simp
  from False a n w' f show ?thesis by (simp add: load_returns_iff)
qed

theorem filtering_is_idempotent_witness:
  "snd (load_filtered_mcp_tools utf8_stdout five_tools (Some [readonly_entry True])
          (Some only_A) True) = Inr [tool_A]
   \<and> snd (load_filtered_mcp_tools utf8_stdout [tool_A] (Some [readonly_entry True])
          (Some only_A) True) = Inr [tool_A]
   \<and> snd (load_filtered_mcp_tools ascii_stdout [tool_A] (Some [readonly_entry True])
          (Some only_A) False) = Inr [tool_A]"
proof -
  have h: "snd (load_filtered_mcp_tools utf8_stdout five_tools (Some [readonly_entry True])
                  (Some only_A) True) = Inr [tool_A]"
    by (simp add: filter_defs example_defs)
  from filtering_is_idempotent [OF h, of ascii_stdout] h show ?thesis by blast
qed

text \<open>
  C4. The entries of the filter dictionary are combined with AND, after the custom filter:
  a tool is included exactly when the custom filter lets it through and every entry
  matches. When the custom filter rejects the tool (returns a false value or raises) the
  entries are not looked at. When an entry does not match after matching ones, the tool is
  excluded whatever entries follow, so the later entries are not evaluated (they could
  not even raise).
\<close>

theorem entries_combine_with_and:
  "(should_include_tool t af cf = Inr True \<longleftrightarrow>
      custom_passes cf t \<and> (\<forall>entry\<in>set (filter_items af). key_matches t entry))
   \<and> (\<not> custom_passes cf t \<longrightarrow> should_include_tool t af cf = Inr False)
   \<and> (custom_passes cf t \<and> (\<forall>entry\<in>set pre. key_matches t entry)
        \<and> annotation_value_matches_filter (get_annotation_value t k) fv = Inr False
      \<longrightarrow> should_include_tool t (Some (pre @ (k, fv) # rest)) cf = Inr False)"
proof (intro conjI impI)
  show "should_include_tool t af cf = Inr True \<longleftrightarrow>
      custom_passes cf t \<and> (\<forall>entry\<in>set (filter_items af). key_matches t entry)"
    by (simp add: should_include_tool_cases check_annotation_filters_True)
next
  assume "\<not> custom_passes cf t"
  then show "should_include_tool t af cf = Inr False"
    by (simp add: should_include_tool_cases)
next
  assume a: "custom_passes cf t \<and> (\<forall>entry\<in>set pre. key_matches t entry)
        \<and> annotation_value_matches_filter (get_annotation_value t k) fv = Inr False"
  then have "check_annotation_filters t (pre @ (k, fv) # rest) = Inr False"
    by (simp add: check_annotation_filters_stops)
  with a show "should_include_tool t (Some (pre @ (k, fv) # rest)) cf = Inr False"
    by (simp add: should_include_tool_cases filter_items_def)
qed

text \<open>
  The example of the claim: tool C passes \<open>{toolsets: ["performance"]}\<close> alone, has
  \<open>readOnlyHint = false\<close>, and fails the combined filter. The malformed tool shows the
  short circuit: its \<open>readOnlyHint\<close> entry fails first, so the \<open>toolsets\<close> entry, which
  would raise, is never evaluated; the raising custom filter excludes without looking at
  any entry.
\<close>

theorem entries_combine_with_and_witness:
  "custom_passes None tool_C
   \<and> key_matches tool_C (toolsets_entry [''performance''])
   \<and> should_include_tool tool_C (Some [toolsets_entry [''performance'']]) None = Inr True
   \<and> annotation_value_matches_filter (get_annotation_value tool_C ''readOnlyHint'')
        (Value (PBool True)) = Inr False
   \<and> should_include_tool tool_C
        (Some [toolsets_entry [''performance''], readonly_entry True]) None = Inr False
   \<and> annotation_value_matches_filter (get_annotation_value tool_malformed ''toolsets'')
        (Value (PList [PStr ''performance''])) = Inl TypeError
   \<and> should_include_tool tool_malformed
        (Some [readonly_entry True, toolsets_entry [''performance'']]) None = Inr False
   \<and> \<not> custom_passes (Some always_raises) tool_malformed
   \<and> should_include_tool tool_malformed (Some [toolsets_entry [''performance'']])
        (Some always_raises) = Inr False"
proof -
  have c: "custom_passes None tool_C" by (simp add: custom_passes_def)
  have k1: "key_matches tool_C (toolsets_entry [''performance''])"
    by (simp add: filter_defs example_defs)
  have k2: "annotation_value_matches_filter (get_annotation_value tool_C ''readOnlyHint'')
        (Value (PBool True)) = Inr False"
    by (simp add: filter_defs example_defs)
  have k3: "annotation_value_matches_filter (get_annotation_value tool_malformed ''readOnlyHint'')
        (Value (PBool True)) = Inr False"
    by (simp add: filter_defs example_defs)
  have k4: "annotation_value_matches_filter (get_annotation_value tool_malformed ''toolsets'')
        (Value (PList [PStr ''performance''])) = Inl TypeError"
    by (simp add: filter_defs example_defs)
  have n: "\<not> custom_passes (Some always_raises) tool_malformed"
    by (simp add: custom_passes_def always_raises_def)
  have "should_include_tool tool_C (Some [toolsets_entry [''performance'']]) None = Inr True"
    using entries_combine_with_and
            [of tool_C "Some [toolsets_entry [''performance'']]" None] c k1
    by (simp add: filter_items_def)
  moreover have "should_include_tool tool_C
        (Some [toolsets_entry [''performance''], readonly_entry True]) None = Inr False"
    using entries_combine_with_and
            [of tool_C _ None "[toolsets_entry [''performance'']]" "''readOnlyHint''"
               "Value (PBool True)" "[]"] c k1 k2
    by (simp add: readonly_entry_def)
  moreover have "should_include_tool tool_malformed
        (Some [readonly_entry True, toolsets_entry [''performance'']]) None = Inr False"
    using entries_combine_with_and
            [of tool_malformed _ None "[]" "''readOnlyHint''"
               "Value (PBool True)" "[toolsets_entry [''performance'']]"] k3
    by (simp add: readonly_entry_def custom_passes_def)
  moreover have "should_include_tool tool_malformed (Some [toolsets_entry [''performance'']])
        (Some always_raises) = Inr False"
    using entries_combine_with_and
            [of tool_malformed "Some [toolsets_entry [''performance'']]" "Some always_raises"] n
    by simp
  ultimately show ?thesis using c k1 k2 k4 n by simp
qed

text \<open>
  C10. A filter value that is neither callable nor a list is compared with \<open>==\<close>; against
  a list annotation the comparison is false, so the entry never matches, and a filter
  dictionary made of that entry excludes the tool, even when the list holds the value.
\<close>

theorem scalar_filter_never_matches_list:
  assumes "\<forall>fs. fv \<noteq> PList fs"
  shows "annotation_value_matches_filter (PList xs) (Value fv) = Inr False
     \<and> (get_annotation_value t k = PList xs
          \<longrightarrow> should_include_tool t (Some [(k, Value fv)]) cf = Inr False)"
proof -
  have "\<not> py_eq (PList xs) fv" using assms by (cases fv) auto
  then have m: "annotation_value_matches_filter (PList xs) (Value fv) = Inr False"
    using assms by (simp add: any_vs_plain)
  then show ?thesis
    by (auto simp: should_include_tool_cases filter_items_def)
qed

theorem scalar_filter_never_matches_list_witness:
  "get_annotation_value tool_A ''toolsets'' = PList [PStr ''performance'']
   \<and> annotation_value_matches_filter (PList [PStr ''performance''])
        (Value (PStr ''performance'')) = Inr False
   \<and> should_include_tool tool_A (Some [(''toolsets'', Value (PStr ''performance''))]) None
        = Inr False"
proof -
  have g: "get_annotation_value tool_A ''toolsets'' = PList [PStr ''performance'']"
    by (simp add: filter_defs example_defs)
  have h: "\<forall>fs. PStr ''performance'' \<noteq> PList fs" by simp
  from scalar_filter_never_matches_list
         [OF h, of "[PStr ''performance'']" tool_A "''toolsets''" None] g
  show ?thesis by simp
qed

text \<open>
  C3, as the code has it. A scalar filter value (string, bool or int) is compared with
  Python's \<open>==\<close>, which does not compare types: the entry matches exactly when the
  annotation value and the filter value are the same string, or are both numbers
  (bool, int or float, a bool counting as 0 or 1) of the same numeric value.
\<close>

theorem scalar_filter_is_python_equality:
  assumes "is_scalar fv"
  shows "annotation_value_matches_filter av (Value fv) =
           Inr ((\<exists>s. av = PStr s \<and> fv = PStr s)
                \<or> (\<exists>q. py_number av = Some q \<and> py_number fv = Some q))"
proof -
  from assms have "\<forall>fs. fv \<noteq> PList fs" by (cases fv) auto
  then have "annotation_value_matches_filter av (Value fv) = Inr (py_eq av fv)"
    by (rule any_vs_plain)
  then show ?thesis using py_eq_scalar_right [OF assms, of av] by simp
qed

text \<open>A tool with \<open>readOnlyHint = true\<close> passes \<open>{readOnlyHint: true}\<close> and fails
  \<open>{readOnlyHint: false}\<close>; the float 1.0 matches the filter value \<open>True\<close>, the string
  \<open>"true"\<close> does not.\<close>

theorem scalar_filter_is_python_equality_witness:
  "is_scalar (PBool True) \<and> is_scalar (PBool False)
   \<and> get_annotation_value tool_A ''readOnlyHint'' = PBool True
   \<and> annotation_value_matches_filter (PBool True) (Value (PBool True)) = Inr True
   \<and> annotation_value_matches_filter (PBool True) (Value (PBool False)) = Inr False
   \<and> annotation_value_matches_filter (PFloat (Finite 1)) (Value (PBool True)) = Inr True
   \<and> annotation_value_matches_filter (PStr ''true'') (Value (PBool True)) = Inr False"
proof -
  have s: "is_scalar (PBool True)" "is_scalar (PBool False)" by simp_all
  have g: "get_annotation_value tool_A ''readOnlyHint'' = PBool True"
    by (simp add: filter_defs example_defs)
  note T = scalar_filter_is_python_equality
  have "annotation_value_matches_filter (PBool True) (Value (PBool True)) = Inr True"
    using T [OF s(1), of "PBool True"] by (simp del: annotation_value_matches_filter.simps)
  moreover
  have "annotation_value_matches_filter (PBool True) (Value (PBool False)) = Inr False"
    using T [OF s(2), of "PBool True"] by (simp del: annotation_value_matches_filter.simps)
  moreover
  have "annotation_value_matches_filter (PFloat (Finite 1)) (Value (PBool True)) = Inr True"
    using T [OF s(1), of "PFloat (Finite 1)"]
    by (simp del: annotation_value_matches_filter.simps)
  moreover
  have "annotation_value_matches_filter (PStr ''true'') (Value (PBool True)) = Inr False"
    using T [OF s(1), of "PStr ''true''"] by (simp del: annotation_value_matches_filter.simps)
  ultimately show ?thesis using s g by simp
qed

text \<open>
  The claim as written asks for equality in type and value, and names the integer 1
  against the boolean true as a mismatch. The integer 1 matches the filter value
  \<open>True\<close>, and the read-only loader returns a tool whose \<open>readOnlyHint\<close> is 1.
\<close>

theorem scalar_type_mismatch_counterexample:
  "is_scalar (PBool True)
   \<and> PInt 1 \<noteq> PBool True
   \<and> annotation_value_matches_filter (PInt 1) (Value (PBool True)) = Inr True
   \<and> get_annotation_value tool_int_hint ''readOnlyHint'' = PInt 1
   \<and> snd (load_readonly_tools utf8_stdout [tool_int_hint] False) = Inr [tool_int_hint]"
  by (simp add: filter_defs example_defs)

text \<open>
  C5, as the code has it. For a tool without the annotation the lookup gives \<open>None\<close>
  (a value, not an error). An entry on that key whose filter value is a scalar or a list
  of scalars does not match; a filter dictionary holding such an entry never includes the
  tool, and no list returned by the pass holds it. A callable filter value is applied to
  \<open>None\<close> and matches exactly when it returns a true value.
\<close>

theorem missing_annotation_fails_value_filters:
  assumes "lacks_annotation t k"
  shows "get_annotation_value t k = PNone
     \<and> (scalar_or_scalars fv \<longrightarrow>
          annotation_value_matches_filter (get_annotation_value t k) (Value fv) = Inr False)
     \<and> (scalar_or_scalars fv \<and> (k, Value fv) \<in> set items \<longrightarrow>
          should_include_tool t (Some items) cf \<noteq> Inr True)
     \<and> (scalar_or_scalars fv \<and> (k, Value fv) \<in> set items
          \<and> snd (load_filtered_mcp_tools stdout L (Some items) cf debug) = Inr R \<longrightarrow> t \<notin> set R)
     \<and> annotation_value_matches_filter (get_annotation_value t k) (Callable f)
          = Inr (f PNone = Some True)"
proof -
  have g: "get_annotation_value t k = PNone"
    using assms by (rule lacking_gives_None)
  have m: "annotation_value_matches_filter (get_annotation_value t k) (Value fv) = Inr False"
    if "scalar_or_scalars fv"
    using that g by (simp add: None_vs_scalars)
  have i: "should_include_tool t (Some items) cf \<noteq> Inr True"
    if "scalar_or_scalars fv" "(k, Value fv) \<in> set items"
    using check_annotation_filters_member [OF that(2) m [OF that(1)]]
    by (simp add: should_include_tool_cases filter_items_def)
  have l: "t \<notin> set R"
    if s: "scalar_or_scalars fv" "(k, Value fv) \<in> set items"
      and r: "snd (load_filtered_mcp_tools stdout L (Some items) cf debug) = Inr R"
  proof -
    from s(2) have "has_filters (Some items)"
      by (cases items) (auto simp: has_filters_def py_truthy_def)
    with r have "R = filter (\<lambda>t. should_include_tool t (Some items) cf = Inr True) L"
      by (simp add: load_returns_iff)
    with i [OF s] show ?thesis by simp
  qed
  have c: "annotation_value_matches_filter (get_annotation_value t k) (Callable f)
          = Inr (f PNone = Some True)"
    by (cases "f PNone") (simp_all add: g)
  from g m i l c show ?thesis by blast
qed

theorem missing_annotation_fails_value_filters_witness:
  "lacks_annotation tool_D ''toolsets''
   \<and> scalar_or_scalars (PList [PStr ''performance''])
   \<and> get_annotation_value tool_D ''toolsets'' = PNone
   \<and> should_include_tool tool_D
        (Some [readonly_entry True, (''toolsets'', Value (PList [PStr ''performance'']))]) None
        \<noteq> Inr True
   \<and> snd (load_filtered_mcp_tools utf8_stdout five_tools
        (Some [readonly_entry True, (''toolsets'', Value (PList [PStr ''performance'']))])
        None False) = Inr [tool_A]
   \<and> tool_D \<notin> set [tool_A]"
proof -
  have a: "lacks_annotation tool_D ''toolsets''"
    by (simp add: lacks_annotation_def tool_D_def)
  have s: "scalar_or_scalars (PList [PStr ''performance''])"
    by (simp add: scalar_or_scalars_def)
  have r: "snd (load_filtered_mcp_tools utf8_stdout five_tools
        (Some [readonly_entry True, (''toolsets'', Value (PList [PStr ''performance'']))])
        None False) = Inr [tool_A]"
    by (simp add: filter_defs example_defs)
  from missing_annotation_fails_value_filters
         [OF a, of "PList [PStr ''performance'']"
            "[readonly_entry True, (''toolsets'', Value (PList [PStr ''performance'']))]"
            None utf8_stdout five_tools False "[tool_A]"] s r
  show ?thesis using a by simp
qed

text \<open>
  The claim as written covers every kind of filter value. Tool E has no metadata at all;
  the predicate \<open>lambda v: v is None\<close> on \<open>toolsets\<close> includes it.
\<close>

theorem missing_annotation_counterexample:
  "lacks_annotation tool_E ''toolsets''
   \<and> get_annotation_value tool_E ''toolsets'' = PNone
   \<and> should_include_tool tool_E (Some [(''toolsets'', Callable is_missing)]) None = Inr True
   \<and> snd (load_filtered_mcp_tools utf8_stdout five_tools (Some [(''toolsets'', Callable is_missing)])
            None False) = Inr [tool_D, tool_E]"
  by (simp add: filter_defs example_defs)

text \<open>
  C2. The filter value is a list of scalars. Against an annotation that is a list (of
  hashable elements, as the lists of scalars of the data model are) the entry matches
  exactly when some element of the annotation equals some element of the filter, that is
  when the two sets intersect. Against an annotation that is not a list the entry matches
  exactly when the annotation value is a member of the filter list. Elements are compared
  as Python compares set members and list members; against a scalar that is \<open>==\<close>:
  the same string, or numbers of the same value (a bool counting as 0 or 1).
\<close>

theorem list_filter_is_intersection_or_membership:
  assumes "list_all is_scalar fs"
  shows "(list_all hashable xs \<longrightarrow>
            annotation_value_matches_filter (PList xs) (Value (PList fs))
              = Inr (\<exists>x\<in>set xs. \<exists>f\<in>set fs. py_eq x f))
     \<and> ((\<forall>ys. av \<noteq> PList ys) \<longrightarrow>
            annotation_value_matches_filter av (Value (PList fs))
              = Inr (\<exists>f\<in>set fs. py_eq f av))"
proof (intro conjI impI)
  assume "list_all hashable xs"
  moreover from assms have s: "\<forall>f\<in>set fs. is_scalar f" by (simp add: list_all_iff)
  then have "(\<exists>x\<in>set xs. \<exists>f\<in>set fs. py_same x f) = (\<exists>x\<in>set xs. \<exists>f\<in>set fs. py_eq x f)"
    by (auto simp: py_same_scalar)
  ultimately
  show "annotation_value_matches_filter (PList xs) (Value (PList fs))
              = Inr (\<exists>x\<in>set xs. \<exists>f\<in>set fs. py_eq x f)"
    using assms by (simp only: list_vs_list scalars_hashable simp_thms if_True)
next
  assume n: "\<forall>ys. av \<noteq> PList ys"
  from assms have s: "\<forall>f\<in>set fs. is_scalar f" by (simp add: list_all_iff)
  then have "(\<exists>f\<in>set fs. py_same f av) = (\<exists>f\<in>set fs. py_eq f av)"
    by (auto simp: py_same_scalar_left)
  with other_vs_list [OF n, of fs]
  show "annotation_value_matches_filter av (Value (PList fs))
              = Inr (\<exists>f\<in>set fs. py_eq f av)"
    by simp
qed

text \<open>
  The tool tagged \<open>["performance", "sysadmin"]\<close> passes \<open>{toolsets: ["performance"]}\<close>
  and \<open>{toolsets: ["sysadmin", "security"]}\<close> and fails \<open>{toolsets: ["security"]}\<close>; a
  scalar annotation \<open>"performance"\<close> is matched by membership.
\<close>

theorem list_filter_is_intersection_or_membership_witness:
  "get_annotation_value tool_multi ''toolsets'' = PList [PStr ''performance'', PStr ''sysadmin'']
   \<and> list_all hashable [PStr ''performance'', PStr ''sysadmin'']
   \<and> list_all is_scalar [PStr ''performance'']
   \<and> list_all is_scalar [PStr ''sysadmin'', PStr ''security'']
   \<and> list_all is_scalar [PStr ''security'']
   \<and> annotation_value_matches_filter (PList [PStr ''performance'', PStr ''sysadmin''])
        (Value (PList [PStr ''performance''])) = Inr True
   \<and> annotation_value_matches_filter (PList [PStr ''performance'', PStr ''sysadmin''])
        (Value (PList [PStr ''sysadmin'', PStr ''security''])) = Inr True
   \<and> annotation_value_matches_filter (PList [PStr ''performance'', PStr ''sysadmin''])
        (Value (PList [PStr ''security''])) = Inr False
   \<and> annotation_value_matches_filter (PStr ''performance'')
        (Value (PList [PStr ''sysadmin'', PStr ''performance''])) = Inr True
   \<and> annotation_value_matches_filter (PStr ''performance'')
        (Value (PList [PStr ''security''])) = Inr False"
proof -
  have g: "get_annotation_value tool_multi ''toolsets''
             = PList [PStr ''performance'', PStr ''sysadmin'']"
    by (simp add: filter_defs example_defs)
  have h: "list_all hashable [PStr ''performance'', PStr ''sysadmin'']" by simp
  have s1: "list_all is_scalar [PStr ''performance'']"
    and s2: "list_all is_scalar [PStr ''sysadmin'', PStr ''security'']"
    and s3: "list_all is_scalar [PStr ''security'']"
    and s4: "list_all is_scalar [PStr ''sysadmin'', PStr ''performance'']"
    by simp_all
  have n: "\<forall>ys. PStr ''performance'' \<noteq> PList ys" by simp
  note T = list_filter_is_intersection_or_membership
  have "annotation_value_matches_filter (PList [PStr ''performance'', PStr ''sysadmin''])
        (Value (PList [PStr ''performance''])) = Inr True"
    using T [OF s1, of "[PStr ''performance'', PStr ''sysadmin'']"] h
    by (simp del: annotation_value_matches_filter.simps)
  moreover have "annotation_value_matches_filter (PList [PStr ''performance'', PStr ''sysadmin''])
        (Value (PList [PStr ''sysadmin'', PStr ''security''])) = Inr True"
    using T [OF s2, of "[PStr ''performance'', PStr ''sysadmin'']"] h
    by (simp del: annotation_value_matches_filter.simps)
  moreover have "annotation_value_matches_filter (PList [PStr ''performance'', PStr ''sysadmin''])
        (Value (PList [PStr ''security''])) = Inr False"
    using T [OF s3, of "[PStr ''performance'', PStr ''sysadmin'']"] h
    by (simp del: annotation_value_matches_filter.simps)
  moreover have "annotation_value_matches_filter (PStr ''performance'')
        (Value (PList [PStr ''sysadmin'', PStr ''performance''])) = Inr True"
    using T [OF s4, of _ "PStr ''performance''"] n
    by (simp del: annotation_value_matches_filter.simps)
  moreover have "annotation_value_matches_filter (PStr ''performance'')
        (Value (PList [PStr ''security''])) = Inr False"
    using T [OF s3, of _ "PStr ''performance''"] n
    by (simp del: annotation_value_matches_filter.simps)
  ultimately show ?thesis using g h s1 s2 s3 by simp
qed

text \<open>
  C1, evaluated on the code. The list branch of the matching function is not guarded:
  \<open>set(annotation_value)\<close> raises \<open>TypeError\<close> when the annotation list holds an
  unhashable element, and nothing between that call and the caller of
  \<open>load_filtered_mcp_tools\<close> catches it. With the malformed tool in the list, the
  toolset loader returns no list at all, although tool A matches.
\<close>

theorem malformed_annotation_raises:
  "get_annotation_value tool_malformed ''toolsets''
     = PList [PDict [(''name'', PStr ''performance'')]]
   \<and> should_include_tool tool_malformed (Some [toolsets_entry [''performance'']]) None
        = Inl TypeError
   \<and> snd (load_toolset_tools utf8_stdout [tool_malformed, tool_A] (One ''performance'') False)
        = Inl TypeError
   \<and> snd (load_toolset_tools utf8_stdout [tool_A] (One ''performance'') False) = Inr [tool_A]"
  by (simp add: filter_defs example_defs)

end
